theory Spec2Isabelle
  imports Main "HOL-Library.Word"
begin

unbundle bit_operations_syntax

section \<open>JavaScript values the module handles\<close>

text \<open>
  A string is the sequence of its code units; the model covers the code units
  \<open>0x00..0xFF\<close>, and every string the module itself builds (base64 text, decimal
  digits, the separator) is ASCII. A byte of a Buffer is an \<open>8 word\<close>.

  A Number is \<open>NaN\<close> or an integer value \<open>Num n\<close>. JavaScript computes exactly
  on the safe integers (magnitude at most \<open>2 ^ 53 - 1\<close>) and prints them in plain
  decimal; that is the range in which \<open>Num n\<close> is the Number \<open>n\<close>.
  A value that may be \<open>undefined\<close> is an \<open>option\<close>.
\<close>

type_synonym byte = "8 word"

datatype number = NaN | Num int

datatype error =
    TypeError string    \<comment> \<open>a thrown \<open>TypeError\<close> with its message\<close>
  | RangeError string   \<comment> \<open>a thrown \<open>RangeError\<close>, naming the offending argument\<close>
  | Reason string       \<comment> \<open>a promise rejected with a plain string\<close>

text \<open>Truthiness, as \<open>!x\<close> and \<open>x || d\<close> test it.\<close>

fun truthy_string :: "string option \<Rightarrow> bool" where
  "truthy_string None = False"
| "truthy_string (Some s) = (s \<noteq> [])"

fun truthy_number :: "number \<Rightarrow> bool" where
  "truthy_number NaN = False"
| "truthy_number (Num n) = (n \<noteq> 0)"

subsection \<open>Number to string\<close>

definition digit_char :: "nat \<Rightarrow> char" where
  "digit_char d = char_of (48 + d)"

fun decimal :: "nat \<Rightarrow> string" where
  "decimal n = (if n < 10 then [digit_char n] else decimal (n div 10) @ [digit_char (n mod 10)])"

declare decimal.simps [simp del]

fun number_to_string :: "number \<Rightarrow> string" where
  "number_to_string NaN = ''NaN''"
| "number_to_string (Num n) = (if n < 0 then CHR ''-'' # decimal (nat (- n)) else decimal (nat n))"

fun string_to_string :: "string option \<Rightarrow> string" where
  "string_to_string None = ''undefined''"
| "string_to_string (Some s) = s"

subsection \<open>\<open>parseInt(s, 10)\<close>\<close>

definition is_whitespace :: "char \<Rightarrow> bool" where
  "is_whitespace c = (of_char c \<in> {9, 10, 11, 12, 13, 32, 160 :: nat})"

definition is_digit :: "char \<Rightarrow> bool" where
  "is_digit c = (48 \<le> (of_char c :: nat) \<and> (of_char c :: nat) \<le> 57)"

definition digit_value :: "char \<Rightarrow> nat" where
  "digit_value c = of_char c - 48"

definition digits_value :: "string \<Rightarrow> nat" where
  "digits_value ds = foldl (\<lambda>a c. 10 * a + digit_value c) 0 ds"

text \<open>
  \<open>parseInt\<close> with radix 10: the argument is converted to a string, leading white
  space is skipped, one sign is read, and the longest run of decimal digits that
  follows is the value; no digit gives \<open>NaN\<close>.
\<close>

definition parseInt :: "string option \<Rightarrow> number" where
  "parseInt v =
     (let s = dropWhile is_whitespace (string_to_string v);
          sign = (case s of c # _ \<Rightarrow> if c = CHR ''-'' then - 1 else 1 | [] \<Rightarrow> (1 :: int));
          s' = (case s of c # r \<Rightarrow> if c = CHR ''-'' \<or> c = CHR ''+'' then r else s | [] \<Rightarrow> s);
          z = takeWhile is_digit s'
      in if z = [] then NaN else Num (sign * int (digits_value z)))"

subsection \<open>\<open>split('::')\<close> and indexing\<close>

text \<open>
  \<open>split_sep acc s\<close> scans \<open>s\<close> from the left, \<open>acc\<close> holding the current piece
  reversed; each leftmost \<open>::\<close> closes a piece. \<open>s.split('::')\<close> is
  \<open>split_sep [] s\<close>: it always has at least one piece.
\<close>

fun split_sep :: "string \<Rightarrow> string \<Rightarrow> string list" where
  "split_sep acc (c1 # c2 # cs) =
     (if c1 = CHR '':'' \<and> c2 = CHR '':'' then rev acc # split_sep [] cs
      else split_sep (c1 # acc) (c2 # cs))"
| "split_sep acc [c] = [rev (c # acc)]"
| "split_sep acc [] = [rev acc]"

text \<open>\<open>items[i]\<close>: \<open>undefined\<close> beyond the end of the array.\<close>

definition item :: "string list \<Rightarrow> nat \<Rightarrow> string option" where
  "item items i = (if i < length items then Some (items ! i) else None)"

section \<open>The record and its codec\<close>

record encryptedPassword =
  salt :: "string option"
  derivedKey :: "string option"
  derivedKeyLength :: number
  iterations :: number

definition serializeEncryptedPassword :: "encryptedPassword \<Rightarrow> string" where
  "serializeEncryptedPassword encryptedPassword =
     string_to_string (salt encryptedPassword) @ ''::'' @
     string_to_string (derivedKey encryptedPassword) @ ''::'' @
     number_to_string (derivedKeyLength encryptedPassword) @ ''::'' @
     number_to_string (iterations encryptedPassword)"

definition deserializeEncryptedPassword :: "string \<Rightarrow> encryptedPassword" where
  "deserializeEncryptedPassword encryptedPassword =
     (let items = split_sep [] encryptedPassword
      in \<lparr> salt = item items 0,
           derivedKey = item items 1,
           derivedKeyLength = parseInt (item items 2),
           iterations = parseInt (item items 3) \<rparr>)"

section \<open>The constructor\<close>

record options =
  opt_iterations :: "number option"
  opt_saltLength :: "number option"
  opt_derivedKeyLength :: "number option"
  opt_digest :: "string option"

record hasher =
  self_iterations :: int
  self_saltLength :: int
  self_derivedKeyLength :: int
  self_digest :: string

text \<open>\<open>x || d\<close> on an optional Number and on an optional string.\<close>

fun number_or :: "number option \<Rightarrow> int \<Rightarrow> int" where
  "number_or (Some (Num n)) d = (if n = 0 then d else n)"
| "number_or (Some NaN) d = d"
| "number_or None d = d"

fun string_or :: "string option \<Rightarrow> string \<Rightarrow> string" where
  "string_or (Some s) d = (if s = [] then d else s)"
| "string_or None d = d"

definition no_options :: options where
  "no_options = \<lparr> opt_iterations = None, opt_saltLength = None,
                  opt_derivedKeyLength = None, opt_digest = None \<rparr>"

definition NodePbkdf2 :: "options option \<Rightarrow> hasher" where
  "NodePbkdf2 opts =
     (let options = (case opts of None \<Rightarrow> no_options | Some o' \<Rightarrow> o')
      in \<lparr> self_iterations = number_or (opt_iterations options) 10000,
           self_saltLength = number_or (opt_saltLength options) 12,
           self_derivedKeyLength = number_or (opt_derivedKeyLength options) 30,
           self_digest = string_or (opt_digest options) ''sha512'' \<rparr>)"

section \<open>Base64, as \<open>Buffer.toString('base64')\<close> writes it\<close>

definition base64_alphabet :: string where
  "base64_alphabet = ''ABCDEFGHIJKLMNOPQRSTUVWXYZabcdefghijklmnopqrstuvwxyz0123456789+/''"

definition base64_char :: "byte \<Rightarrow> char" where
  "base64_char w = base64_alphabet ! unat w"

fun base64 :: "byte list \<Rightarrow> string" where
  "base64 (a # b # c # bs) =
     base64_char (drop_bit 2 a) #
     base64_char (push_bit 4 (a AND 3) OR drop_bit 4 b) #
     base64_char (push_bit 2 (b AND 15) OR drop_bit 6 c) #
     base64_char (c AND 63) # base64 bs"
| "base64 [a, b] =
     [base64_char (drop_bit 2 a),
      base64_char (push_bit 4 (a AND 3) OR drop_bit 4 b),
      base64_char (push_bit 2 (b AND 15)),
      CHR ''='']"
| "base64 [a] =
     [base64_char (drop_bit 2 a), base64_char (push_bit 4 (a AND 3)), CHR ''='', CHR ''='']"
| "base64 [] = []"

section \<open>The \<open>crypto\<close> module\<close>

text \<open>
  The module's two functions are not part of this repository; they enter as parameters.

  \<^item> The random source is \<open>ent\<close>: \<open>ent i\<close> is the \<open>i\<close>-th byte it delivers to this
    call. \<open>crypto.randomBytes(size)\<close> throws unless \<open>0 \<le> size < 2 ^ 31\<close> and
    otherwise returns \<open>size\<close> bytes.
  \<^item> PBKDF2 is \<open>kdf\<close>: for a digest it knows, \<open>kdf digest\<close> is \<open>Some f\<close>, and
    \<open>f password salt iterations i\<close> is the \<open>i\<close>-th byte of the block stream
    \<open>T\<^sub>1 T\<^sub>2 \<dots>\<close> of which the derived key is the first \<open>keylen\<close> bytes.
    \<open>crypto.pbkdf2Sync\<close> throws unless \<open>1 \<le> iterations < 2 ^ 31\<close> and
    \<open>0 \<le> keylen < 2 ^ 31\<close>, and on a digest it does not know. \<open>crypto.pbkdf2\<close>
    is the same computation, its result or error delivered to the callback.
\<close>

type_synonym entropy = "nat \<Rightarrow> byte"
type_synonym kdf = "string \<Rightarrow> (string \<Rightarrow> string \<Rightarrow> int \<Rightarrow> nat \<Rightarrow> byte) option"

definition randomBytes :: "entropy \<Rightarrow> int \<Rightarrow> error + byte list" where
  "randomBytes ent n =
     (if n < 0 \<or> 2 ^ 31 \<le> n then Inl (RangeError ''size'')
      else Inr (map ent [0..<nat n]))"

definition pbkdf2Sync :: "kdf \<Rightarrow> string \<Rightarrow> string \<Rightarrow> int \<Rightarrow> int \<Rightarrow> string \<Rightarrow> error + byte list" where
  "pbkdf2Sync kdf password salt' iterations' keylen digest =
     (if iterations' < 1 \<or> 2 ^ 31 \<le> iterations' then Inl (RangeError ''iterations'')
      else if keylen < 0 \<or> 2 ^ 31 \<le> keylen then Inl (RangeError ''keylen'')
      else case kdf digest of
             None \<Rightarrow> Inl (TypeError ''Invalid digest'')
           | Some f \<Rightarrow> Inr (map (f password salt' iterations') [0..<nat keylen]))"

definition pbkdf2 :: "kdf \<Rightarrow> string \<Rightarrow> string \<Rightarrow> int \<Rightarrow> int \<Rightarrow> string \<Rightarrow> error + byte list" where
  "pbkdf2 kdf password salt' iterations' keylen digest =
     pbkdf2Sync kdf password salt' iterations' keylen digest"

section \<open>The module's operations\<close>

text \<open>\<open>s.slice(0, len)\<close>: a negative \<open>len\<close> counts from the end of \<open>s\<close>.\<close>

definition slice0 :: "string \<Rightarrow> int \<Rightarrow> string" where
  "slice0 s len = (if len < 0 then take (length s - nat (- len)) s else take (nat len) s)"

definition uid :: "entropy \<Rightarrow> int \<Rightarrow> error + string" where
  "uid ent len =
     (case randomBytes ent len of
        Inl e \<Rightarrow> Inl e
      | Inr buf \<Rightarrow> Inr (slice0 (base64 buf) len))"

definition format_message :: string where
  "format_message =
     ''encryptedPassword doesn'' @ [char_of (39 :: nat)] @ ''t have the right format''"

text \<open>
  A promise is modelled by the way it settles: \<open>Inr v\<close> when it resolves with \<open>v\<close>,
  \<open>Inl e\<close> when it is rejected with \<open>e\<close> (an exception thrown inside the executor
  rejects it with that exception).
\<close>

definition encryptPassword :: "kdf \<Rightarrow> entropy \<Rightarrow> hasher \<Rightarrow> string \<Rightarrow> error + string" where
  "encryptPassword kdf ent self password =
     (case uid ent (self_saltLength self) of
        Inl e \<Rightarrow> Inl e
      | Inr randomSalt \<Rightarrow>
          (case pbkdf2 kdf password randomSalt (self_iterations self)
                  (self_derivedKeyLength self) (self_digest self) of
             Inl err \<Rightarrow> Inl err
           | Inr derivedKey' \<Rightarrow>
               Inr (serializeEncryptedPassword
                      \<lparr> salt = Some randomSalt,
                        derivedKey = Some (base64 derivedKey'),
                        derivedKeyLength = Num (self_derivedKeyLength self),
                        iterations = Num (self_iterations self) \<rparr>)))"

definition encryptPasswordSync :: "kdf \<Rightarrow> entropy \<Rightarrow> hasher \<Rightarrow> string \<Rightarrow> error + string" where
  "encryptPasswordSync kdf ent self password =
     (case uid ent (self_saltLength self) of
        Inl e \<Rightarrow> Inl e
      | Inr randomSalt \<Rightarrow>
          (case pbkdf2Sync kdf password randomSalt (self_iterations self)
                  (self_derivedKeyLength self) (self_digest self) of
             Inl err \<Rightarrow> Inl err
           | Inr derivedKey' \<Rightarrow>
               Inr (serializeEncryptedPassword
                      \<lparr> salt = Some randomSalt,
                        derivedKey = Some (base64 derivedKey'),
                        derivedKeyLength = Num (self_derivedKeyLength self),
                        iterations = Num (self_iterations self) \<rparr>)))"

text \<open>
  The format test of both checks: every field of the decoded record is truthy.
  Past it the string fields are strings and the Number fields are non-zero integers.
\<close>

definition right_format :: "encryptedPassword \<Rightarrow> bool" where
  "right_format r =
     (\<not> (\<not> truthy_string (salt r) \<or> \<not> truthy_string (derivedKey r) \<or>
         \<not> truthy_number (iterations r) \<or> \<not> truthy_number (derivedKeyLength r)))"

fun the_int :: "number \<Rightarrow> int" where
  "the_int (Num n) = n"
| "the_int NaN = 0"

definition checkPassword :: "kdf \<Rightarrow> hasher \<Rightarrow> string \<Rightarrow> string \<Rightarrow> error + bool" where
  "checkPassword kdf self password encryptedPassword =
     (let encryptedPassword' = deserializeEncryptedPassword encryptedPassword
      in if \<not> right_format encryptedPassword' then Inl (Reason format_message)
         else case pbkdf2 kdf password (string_to_string (salt encryptedPassword'))
                     (the_int (iterations encryptedPassword'))
                     (the_int (derivedKeyLength encryptedPassword')) (self_digest self) of
                Inl err \<Rightarrow> Inl err
              | Inr derivedKey' \<Rightarrow>
                  if Some (base64 derivedKey') = derivedKey encryptedPassword'
                  then Inr True else Inr False)"

definition checkPasswordSync :: "kdf \<Rightarrow> hasher \<Rightarrow> string \<Rightarrow> string \<Rightarrow> error + bool" where
  "checkPasswordSync kdf self password encryptedPassword =
     (let encryptedPassword' = deserializeEncryptedPassword encryptedPassword
      in if \<not> right_format encryptedPassword' then Inl (TypeError format_message)
         else case pbkdf2Sync kdf password (string_to_string (salt encryptedPassword'))
                     (the_int (iterations encryptedPassword'))
                     (the_int (derivedKeyLength encryptedPassword')) (self_digest self) of
                Inl err \<Rightarrow> Inl err
              | Inr derivedKey' \<Rightarrow>
                  if Some (base64 derivedKey') = derivedKey encryptedPassword'
                  then Inr True else Inr False)"

section \<open>Predicates the properties are stated with\<close>

text \<open>\<open>has_sep s\<close>: the separator \<open>::\<close> occurs in \<open>s\<close>.\<close>

fun has_sep :: "string \<Rightarrow> bool" where
  "has_sep (c1 # c2 # cs) = ((c1 = CHR '':'' \<and> c2 = CHR '':'') \<or> has_sep (c2 # cs))"
| "has_sep [c] = False"
| "has_sep [] = False"

definition ends_with_colon :: "string \<Rightarrow> bool" where
  "ends_with_colon s = (s \<noteq> [] \<and> last s = CHR '':'')"

text \<open>
  The characters a URL carries unescaped: the unreserved set of RFC 3986, which is
  letters, digits and \<open>- . _ ~\<close>.
\<close>

definition is_alpha :: "char \<Rightarrow> bool" where
  "is_alpha c = ((65 \<le> (of_char c :: nat) \<and> (of_char c :: nat) \<le> 90) \<or>
                (97 \<le> (of_char c :: nat) \<and> (of_char c :: nat) \<le> 122))"

definition url_safe :: "char \<Rightarrow> bool" where
  "url_safe c = (is_alpha c \<or> is_digit c \<or> c \<in> set ''-._~'')"

text \<open>
  Two concrete instances of the parameters, for evaluating the operations on examples:
  a random source that delivers the bytes \<open>bs\<close> (then zeros), and a stand-in key
  stream for the digest \<open>sha512\<close>.
\<close>

definition entropy_of :: "byte list \<Rightarrow> entropy" where
  "entropy_of bs i = (if i < length bs then bs ! i else 0)"

definition sample_kdf :: kdf where
  "sample_kdf digest =
     (if digest = ''sha512''
      then Some (\<lambda>password salt' iterations' i.
                   of_nat (length password + length salt' + nat iterations' + i))
      else None)"




section \<open>Base64 text\<close>

lemma six_bits:
  fixes w :: byte
  assumes "\<And>i. bit w i \<Longrightarrow> i < 6"
  shows "unat w < 64"
proof -
  have "take_bit 6 w = w"
    by (rule bit_eqI) (auto simp add: bit_take_bit_iff dest: assms)
  then have "unat w = take_bit 6 (unat w)"
    by (metis unsigned_take_bit_eq)
  also have "\<dots> < 2 ^ 6"
    by (rule take_bit_nat_less_exp)
  finally show ?thesis by simp
qed

lemma and3: "(a::byte) AND 3 = take_bit 2 a"
proof -
  have "(3::byte) = mask 2" by (simp add: mask_eq_exp_minus_1)
  then show ?thesis by (simp add: take_bit_eq_mask)
qed
lemma and15: "(a::byte) AND 15 = take_bit 4 a"
proof -
  have "(15::byte) = mask 4" by (simp add: mask_eq_exp_minus_1)
  then show ?thesis by (simp add: take_bit_eq_mask)
qed
lemma and63: "(a::byte) AND 63 = take_bit 6 a"
proof -
  have "(63::byte) = mask 6" by (simp add: mask_eq_exp_minus_1)
  then show ?thesis by (simp add: take_bit_eq_mask)
qed

lemma sextet1: "unat (drop_bit 2 (a::byte)) < 64"
  by (rule six_bits) (auto simp add: bit_simps dest: bit_imp_le_length)

lemma sextet2: "unat (push_bit 4 ((a::byte) AND 3) OR drop_bit 4 (b::byte)) < 64"
  unfolding and3
  by (rule six_bits) (auto simp add: bit_simps dest: bit_imp_le_length)

lemma sextet3: "unat (push_bit 2 ((b::byte) AND 15) OR drop_bit 6 (c::byte)) < 64"
  unfolding and15
  by (rule six_bits) (auto simp add: bit_simps dest: bit_imp_le_length)

lemma sextet4: "unat ((c::byte) AND 63) < 64"
  unfolding and63
  by (rule six_bits) (auto simp add: bit_simps dest: bit_imp_le_length)

lemma sextet2': "unat (push_bit 4 ((a::byte) AND 3)) < 64"
  unfolding and3
  by (rule six_bits) (auto simp add: bit_simps dest: bit_imp_le_length)

lemma sextet3': "unat (push_bit 2 ((b::byte) AND 15)) < 64"
  unfolding and15
  by (rule six_bits) (auto simp add: bit_simps dest: bit_imp_le_length)



lemma base64_char_mem: "unat w < 64 \<Longrightarrow> base64_char w \<in> set base64_alphabet"
  unfolding base64_char_def by (rule nth_mem) (simp add: base64_alphabet_def)

lemmas sextet_chars =
  sextet1 [THEN base64_char_mem] sextet2 [THEN base64_char_mem]
  sextet3 [THEN base64_char_mem] sextet4 [THEN base64_char_mem]
  sextet2' [THEN base64_char_mem] sextet3' [THEN base64_char_mem]

lemma base64_chars: "set (base64 bs) \<subseteq> insert (CHR ''='') (set base64_alphabet)"
proof (induction bs rule: base64.induct)
  case (1 a b c bs)
  have "set (base64 (a # b # c # bs)) \<subseteq> set base64_alphabet \<union> set (base64 bs)"
    unfolding base64.simps list.set using sextet_chars by blast
  with 1 show ?case by blast
next
  case (2 a b)
  show ?case unfolding base64.simps list.set using sextet_chars by blast
next
  case (3 a)
  show ?case unfolding base64.simps list.set using sextet_chars by blast
next
  case 4
  show ?case by simp
qed

lemma colon_not_base64: "CHR '':'' \<notin> insert (CHR ''='') (set base64_alphabet)"
  by (simp add: base64_alphabet_def)

lemma length_base64: "length (base64 bs) = 4 * ((length bs + 2) div 3)"
proof (induction bs rule: base64.induct)
  case (1 a b c bs)
  have "(length (a # b # c # bs) + 2) div 3 = (length bs + 2) div 3 + 1" by simp
  with 1 show ?case by (simp del: length_Cons add: base64.simps)
qed simp_all

lemma take_quad:
  assumes "length q = 4"
  shows "set (take (3 + n) (q @ xs)) \<subseteq> set q \<union> set (take n xs)"
proof -
  have "set (take (3 + n - length q) xs) \<subseteq> set (take n xs)"
    by (rule set_take_subset_set_take) (simp add: assms)
  moreover have "set (take (3 + n) q) \<subseteq> set q"
    by (rule set_take_subset)
  ultimately show ?thesis
    unfolding take_append set_append by blast
qed

lemma base64_prefix_chars: "set (take (length bs) (base64 bs)) \<subseteq> set base64_alphabet"
proof (induction bs rule: base64.induct)
  case (1 a b c bs)
  let ?q = "[base64_char (drop_bit 2 a),
             base64_char (push_bit 4 (a AND 3) OR drop_bit 4 b),
             base64_char (push_bit 2 (b AND 15) OR drop_bit 6 c),
             base64_char (c AND 63)]"
  have eq: "base64 (a # b # c # bs) = ?q @ base64 bs"
    unfolding base64.simps by (simp only: append.simps)
  have q: "set ?q \<subseteq> set base64_alphabet"
    unfolding list.set using sextet_chars by blast
  have len: "length (a # b # c # bs) = 3 + length bs" by simp
  have "set (take (length (a # b # c # bs)) (?q @ base64 bs))
          \<subseteq> set ?q \<union> set (take (length bs) (base64 bs))"
    unfolding len by (rule take_quad) simp
  with 1 q show ?case unfolding eq by blast
next
  case (2 a b)
  have "take (length [a, b]) (base64 [a, b])
          = [base64_char (drop_bit 2 a), base64_char (push_bit 4 (a AND 3) OR drop_bit 4 b)]"
    unfolding base64.simps by (simp only: length_Cons list.size take_Suc_Cons take_0 One_nat_def[symmetric]) simp
  then show ?case using sextet_chars by simp
next
  case (3 a)
  show ?case using sextet_chars by simp
next
  case 4
  show ?case by simp
qed

lemma uid_Inr:
  "0 \<le> L \<Longrightarrow> L < 2 ^ 31 \<Longrightarrow>
     uid ent L = Inr (take (nat L) (base64 (map ent [0..<nat L])))"
  by (simp add: uid_def randomBytes_def slice0_def)

lemma uid_returns_range: "uid ent L = Inr s \<Longrightarrow> 0 \<le> L \<and> L < 2 ^ 31"
  by (auto simp add: uid_def randomBytes_def split: if_splits)

lemma uid_length: "uid ent L = Inr s \<Longrightarrow> length s = nat L"
proof -
  assume u: "uid ent L = Inr s"
  from uid_returns_range [OF u] have "0 \<le> L" and "L < 2 ^ 31" by simp_all
  from uid_Inr [OF this] u show ?thesis by (auto simp add: length_base64)
qed

lemma uid_chars: "uid ent L = Inr s \<Longrightarrow> set s \<subseteq> set base64_alphabet"
proof -
  assume u: "uid ent L = Inr s"
  from uid_returns_range [OF u] have "0 \<le> L" and "L < 2 ^ 31" by simp_all
  from uid_Inr [OF this] u
  have "s = take (length (map ent [0..<nat L])) (base64 (map ent [0..<nat L]))"
    by simp
  then show ?thesis using base64_prefix_chars by metis
qed



lemma base64_char_not_pad: "unat w < 64 \<Longrightarrow> base64_char w \<noteq> CHR ''=''"
  using base64_char_mem [of w] by (auto simp add: base64_alphabet_def)












section \<open>Splitting and numbers\<close>

lemma split_piece:
  "\<not> has_sep a \<Longrightarrow> \<not> ends_with_colon a \<Longrightarrow>
   split_sep acc (a @ CHR '':'' # CHR '':'' # rest) = (rev acc @ a) # split_sep [] rest"
proof (induction a arbitrary: acc)
  case Nil
  show ?case by simp
next
  case (Cons c a)
  show ?case
  proof (cases a)
    case Nil
    with Cons.prems show ?thesis by (simp add: ends_with_colon_def)
  next
    case (Cons d a')
    with Cons.prems have "\<not> has_sep a" "\<not> ends_with_colon a" "\<not> (c = CHR '':'' \<and> d = CHR '':'')"
      by (auto simp add: ends_with_colon_def)
    with Cons.IH [of "c # acc"] Cons show ?thesis by simp
  qed
qed

lemma split_last: "CHR '':'' \<notin> set d \<Longrightarrow> split_sep acc d = [rev acc @ d]"
proof (induction acc d rule: split_sep.induct)
  case (1 acc c1 c2 cs)
  then show ?case by auto
qed simp_all

lemma no_colon_no_sep: "CHR '':'' \<notin> set a \<Longrightarrow> \<not> has_sep a"
  by (induction a rule: has_sep.induct) auto

lemma no_colon_no_end: "CHR '':'' \<notin> set a \<Longrightarrow> \<not> ends_with_colon a"
  unfolding ends_with_colon_def by (metis last_in_set)

lemma of_char_digit_char: "d < 10 \<Longrightarrow> (of_char (digit_char d) :: nat) = 48 + d"
  by (simp add: digit_char_def)

lemma is_digit_digit_char: "d < 10 \<Longrightarrow> is_digit (digit_char d)"
  by (simp add: is_digit_def of_char_digit_char)

lemma digit_value_digit_char: "d < 10 \<Longrightarrow> digit_value (digit_char d) = d"
  by (simp add: digit_value_def of_char_digit_char)

lemma decimal_digits: "c \<in> set (decimal n) \<Longrightarrow> is_digit c"
proof (induction n rule: decimal.induct)
  case (1 n)
  then show ?case
    by (subst (asm) (2) decimal.simps) (auto simp add: is_digit_digit_char split: if_splits)
qed

lemma decimal_nonempty: "decimal n \<noteq> []"
  by (subst decimal.simps) simp

lemma digits_value_snoc: "digits_value (ds @ [c]) = 10 * digits_value ds + digit_value c"
  by (simp add: digits_value_def)

lemma digits_value_decimal: "digits_value (decimal n) = n"
proof (induction n rule: decimal.induct)
  case (1 n)
  show ?case
  proof (cases "n < 10")
    case True
    then show ?thesis
      by (subst decimal.simps) (simp add: digits_value_def digit_value_digit_char)
  next
    case False
    with 1 show ?thesis
      by (subst decimal.simps) (simp add: digits_value_snoc digit_value_digit_char)
  qed
qed

lemma is_digit_plain:
  "is_digit c \<Longrightarrow> \<not> is_whitespace c \<and> c \<noteq> CHR ''-'' \<and> c \<noteq> CHR ''+'' \<and> c \<noteq> CHR '':''"
  by (auto simp add: is_digit_def is_whitespace_def)

lemma parseInt_digits:
  assumes "ds \<noteq> []" and "\<forall>c\<in>set ds. is_digit c"
  shows "parseInt (Some ds) = Num (int (digits_value ds))"
proof -
  obtain c r where ds: "ds = c # r" using assms(1) by (cases ds) auto
  with assms(2) have c: "is_digit c" by simp
  have tw: "takeWhile is_digit ds = ds" using assms(2) by (simp add: takeWhile_eq_all_conv)
  from c have dw: "dropWhile is_whitespace ds = ds" by (simp add: ds is_digit_plain)
  show ?thesis
    using is_digit_plain [OF c] assms(1) tw
    by (simp add: parseInt_def dw Let_def ds)
qed

lemma parseInt_minus_digits:
  assumes "ds \<noteq> []" and "\<forall>c\<in>set ds. is_digit c"
  shows "parseInt (Some (CHR ''-'' # ds)) = Num (- int (digits_value ds))"
proof -
  have tw: "takeWhile is_digit ds = ds" using assms(2) by (simp add: takeWhile_eq_all_conv)
  have "\<not> is_whitespace CHR ''-''" by (simp add: is_whitespace_def)
  then show ?thesis using assms(1) by (simp add: parseInt_def Let_def tw)
qed

lemma parseInt_number_to_string: "parseInt (Some (number_to_string (Num n))) = Num n"
  by (simp add: parseInt_digits parseInt_minus_digits decimal_nonempty decimal_digits
      digits_value_decimal)

lemma number_to_string_no_colon: "CHR '':'' \<notin> set (number_to_string (Num n))"
  using is_digit_plain decimal_digits by auto

lemma deserialize_serialize:
  assumes "\<not> has_sep s" "\<not> ends_with_colon s" "\<not> has_sep d" "\<not> ends_with_colon d"
  shows "deserializeEncryptedPassword (serializeEncryptedPassword
           \<lparr> salt = Some s, derivedKey = Some d, derivedKeyLength = Num k, iterations = Num i \<rparr>)
         = \<lparr> salt = Some s, derivedKey = Some d, derivedKeyLength = Num k, iterations = Num i \<rparr>"
proof -
  let ?K = "number_to_string (Num k)" and ?I = "number_to_string (Num i)"
  have "split_sep [] (s @ CHR '':'' # CHR '':'' # d @ CHR '':'' # CHR '':'' # ?K @ CHR '':'' # CHR '':'' # ?I)
          = [s, d, ?K, ?I]"
    using assms number_to_string_no_colon [of k] number_to_string_no_colon [of i]
    by (simp only: split_piece split_last no_colon_no_sep no_colon_no_end
        rev.simps append_Nil not_False_eq_True)
  then show ?thesis
    by (simp add: serializeEncryptedPassword_def deserializeEncryptedPassword_def item_def
        parseInt_number_to_string del: number_to_string.simps)
qed

section \<open>Encrypting and checking\<close>

lemma encryptPassword_eq: "encryptPassword kdf ent h p = encryptPasswordSync kdf ent h p"
  by (simp add: encryptPassword_def encryptPasswordSync_def pbkdf2_def cong: sum.case_cong)

lemma pbkdf2Sync_Inr:
  assumes "pbkdf2Sync kdf p s i k dg = Inr key"
  shows "1 \<le> i \<and> i < 2 ^ 31 \<and> 0 \<le> k \<and> k < 2 ^ 31 \<and> length key = nat k"
  using assms by (auto simp add: pbkdf2Sync_def split: if_splits option.splits)

lemma encryptPasswordSync_Inr:
  assumes "encryptPasswordSync kdf ent h p = Inr r"
  shows "\<exists>s key. uid ent (self_saltLength h) = Inr s \<and>
           pbkdf2Sync kdf p s (self_iterations h) (self_derivedKeyLength h) (self_digest h) = Inr key \<and>
           r = serializeEncryptedPassword
                 \<lparr> salt = Some s, derivedKey = Some (base64 key),
                   derivedKeyLength = Num (self_derivedKeyLength h),
                   iterations = Num (self_iterations h) \<rparr>"
  using assms by (auto simp add: encryptPasswordSync_def split: sum.splits)

lemma base64_no_colon: "CHR '':'' \<notin> set (base64 bs)"
  using base64_chars [of bs] colon_not_base64 by blast

lemma uid_no_colon: "uid ent L = Inr s \<Longrightarrow> CHR '':'' \<notin> set s"
  using uid_chars [of ent L s] colon_not_base64 by blast

lemma base64_nonempty: "bs \<noteq> [] \<Longrightarrow> base64 bs \<noteq> []"
  by (cases bs rule: base64.cases) simp_all

lemma check_decoded:
  assumes "deserializeEncryptedPassword r =
             \<lparr> salt = Some s, derivedKey = Some d, derivedKeyLength = Num k, iterations = Num i \<rparr>"
    and "s \<noteq> []" "d \<noteq> []" "k \<noteq> 0" "i \<noteq> 0"
  shows "checkPasswordSync kdf h q r =
           (case pbkdf2Sync kdf q s i k (self_digest h) of
              Inl err \<Rightarrow> Inl err | Inr key \<Rightarrow> Inr (base64 key = d))"
    and "checkPassword kdf h q r =
           (case pbkdf2Sync kdf q s i k (self_digest h) of
              Inl err \<Rightarrow> Inl err | Inr key \<Rightarrow> Inr (base64 key = d))"
  using assms
  by (simp_all add: checkPasswordSync_def checkPassword_def pbkdf2_def right_format_def
      split: sum.splits)

lemma encrypted_decodes:
  assumes "encryptPasswordSync kdf ent h p = Inr r"
  shows "\<exists>s key. uid ent (self_saltLength h) = Inr s \<and>
           pbkdf2Sync kdf p s (self_iterations h) (self_derivedKeyLength h) (self_digest h) = Inr key \<and>
           CHR '':'' \<notin> set s \<and> CHR '':'' \<notin> set (base64 key) \<and>
           deserializeEncryptedPassword r =
                 \<lparr> salt = Some s, derivedKey = Some (base64 key),
                   derivedKeyLength = Num (self_derivedKeyLength h),
                   iterations = Num (self_iterations h) \<rparr>"
proof -
  from encryptPasswordSync_Inr [OF assms] obtain s key where
    u: "uid ent (self_saltLength h) = Inr s" and
    k: "pbkdf2Sync kdf p s (self_iterations h) (self_derivedKeyLength h) (self_digest h) = Inr key" and
    r: "r = serializeEncryptedPassword
                 \<lparr> salt = Some s, derivedKey = Some (base64 key),
                   derivedKeyLength = Num (self_derivedKeyLength h),
                   iterations = Num (self_iterations h) \<rparr>"
    by blast
  have s: "CHR '':'' \<notin> set s" using u by (rule uid_no_colon)
  have d: "CHR '':'' \<notin> set (base64 key)" by (rule base64_no_colon)
  have "deserializeEncryptedPassword r =
                 \<lparr> salt = Some s, derivedKey = Some (base64 key),
                   derivedKeyLength = Num (self_derivedKeyLength h),
                   iterations = Num (self_iterations h) \<rparr>"
    unfolding r using s d
    by (intro deserialize_serialize no_colon_no_sep no_colon_no_end)
  with u k s d show ?thesis by blast
qed

lemma NodePbkdf2_nonzero:
  "self_iterations (NodePbkdf2 opts) \<noteq> 0"
  "self_saltLength (NodePbkdf2 opts) \<noteq> 0"
  "self_derivedKeyLength (NodePbkdf2 opts) \<noteq> 0"
  "self_digest (NodePbkdf2 opts) \<noteq> []"
proof -
  have n: "d \<noteq> 0 \<Longrightarrow> number_or v d \<noteq> 0" for v d
    by (cases "(v, d)" rule: number_or.cases) auto
  have s: "d \<noteq> [] \<Longrightarrow> string_or v d \<noteq> []" for v d
    by (cases "(v, d)" rule: string_or.cases) auto
  show "self_iterations (NodePbkdf2 opts) \<noteq> 0"
    "self_saltLength (NodePbkdf2 opts) \<noteq> 0"
    "self_derivedKeyLength (NodePbkdf2 opts) \<noteq> 0"
    "self_digest (NodePbkdf2 opts) \<noteq> []"
    by (simp_all add: NodePbkdf2_def Let_def n s)
qed

text \<open>What a constructed hasher's own record looks like to any check.\<close>

lemma check_own_record:
  assumes enc: "encryptPasswordSync kdf ent (NodePbkdf2 opts) p = Inr r"
  shows "\<exists>s key. uid ent (self_saltLength (NodePbkdf2 opts)) = Inr s \<and>
           pbkdf2Sync kdf p s (self_iterations (NodePbkdf2 opts))
             (self_derivedKeyLength (NodePbkdf2 opts)) (self_digest (NodePbkdf2 opts)) = Inr key \<and>
           deserializeEncryptedPassword r =
                 \<lparr> salt = Some s, derivedKey = Some (base64 key),
                   derivedKeyLength = Num (self_derivedKeyLength (NodePbkdf2 opts)),
                   iterations = Num (self_iterations (NodePbkdf2 opts)) \<rparr> \<and>
           (\<forall>h q. checkPasswordSync kdf h q r =
              (case pbkdf2Sync kdf q s (self_iterations (NodePbkdf2 opts))
                      (self_derivedKeyLength (NodePbkdf2 opts)) (self_digest h) of
                 Inl err \<Rightarrow> Inl err | Inr key' \<Rightarrow> Inr (base64 key' = base64 key))) \<and>
           (\<forall>h q. checkPassword kdf h q r =
              (case pbkdf2Sync kdf q s (self_iterations (NodePbkdf2 opts))
                      (self_derivedKeyLength (NodePbkdf2 opts)) (self_digest h) of
                 Inl err \<Rightarrow> Inl err | Inr key' \<Rightarrow> Inr (base64 key' = base64 key)))"
proof -
  let ?h = "NodePbkdf2 opts"
  from encrypted_decodes [OF enc] obtain s key where
    u: "uid ent (self_saltLength ?h) = Inr s" and
    k: "pbkdf2Sync kdf p s (self_iterations ?h) (self_derivedKeyLength ?h) (self_digest ?h) = Inr key" and
    d: "deserializeEncryptedPassword r =
                 \<lparr> salt = Some s, derivedKey = Some (base64 key),
                   derivedKeyLength = Num (self_derivedKeyLength ?h),
                   iterations = Num (self_iterations ?h) \<rparr>"
    by blast
  from uid_returns_range [OF u] have L: "0 \<le> self_saltLength ?h" by simp
  from u have "length s = nat (self_saltLength ?h)" by (rule uid_length)
  with L NodePbkdf2_nonzero(2) [of opts] have s: "s \<noteq> []" by auto
  from pbkdf2Sync_Inr [OF k] NodePbkdf2_nonzero(3) [of opts] have "key \<noteq> []" by auto
  then have b: "base64 key \<noteq> []" by (rule base64_nonempty)
  note c = check_decoded [OF d s b NodePbkdf2_nonzero(3) NodePbkdf2_nonzero(1)]
  from u k d c show ?thesis by blast
qed

lemma base64_alphabet_url:
  "c \<in> set base64_alphabet \<Longrightarrow> url_safe c \<or> c = CHR ''+'' \<or> c = CHR ''/''"
proof -
  have "list_all (\<lambda>c. url_safe c \<or> c = CHR ''+'' \<or> c = CHR ''/'') base64_alphabet"
    by code_simp
  then show "c \<in> set base64_alphabet \<Longrightarrow> url_safe c \<or> c = CHR ''+'' \<or> c = CHR ''/''"
    by (simp add: list_all_iff)
qed

section \<open>The constructor's defaults\<close>

text \<open>
  Claim C10. The constructor puts the default in place of every option that is absent
  or falsy: no constructed hasher has a zero \<open>iterations\<close>, \<open>saltLength\<close> or
  \<open>derivedKeyLength\<close> (nor an empty digest); without options the hasher is
  \<open>10000, 12, 30, sha512\<close>; and an option that is absent, \<open>0\<close> or \<open>NaN\<close> (for
  the digest: absent or the empty string) yields the default of its field, whatever the
  other options are.
\<close>

theorem NodePbkdf2_falsy_defaults:
  "self_iterations (NodePbkdf2 opts) \<noteq> 0 \<and>
   self_saltLength (NodePbkdf2 opts) \<noteq> 0 \<and>
   self_derivedKeyLength (NodePbkdf2 opts) \<noteq> 0 \<and>
   self_digest (NodePbkdf2 opts) \<noteq> '''' \<and>
   NodePbkdf2 None =
     \<lparr> self_iterations = 10000, self_saltLength = 12, self_derivedKeyLength = 30,
       self_digest = ''sha512'' \<rparr> \<and>
   self_iterations (NodePbkdf2 (Some (o'\<lparr> opt_iterations := None \<rparr>))) = 10000 \<and>
   self_iterations (NodePbkdf2 (Some (o'\<lparr> opt_iterations := Some (Num 0) \<rparr>))) = 10000 \<and>
   self_iterations (NodePbkdf2 (Some (o'\<lparr> opt_iterations := Some NaN \<rparr>))) = 10000 \<and>
   self_saltLength (NodePbkdf2 (Some (o'\<lparr> opt_saltLength := None \<rparr>))) = 12 \<and>
   self_saltLength (NodePbkdf2 (Some (o'\<lparr> opt_saltLength := Some (Num 0) \<rparr>))) = 12 \<and>
   self_saltLength (NodePbkdf2 (Some (o'\<lparr> opt_saltLength := Some NaN \<rparr>))) = 12 \<and>
   self_derivedKeyLength (NodePbkdf2 (Some (o'\<lparr> opt_derivedKeyLength := None \<rparr>))) = 30 \<and>
   self_derivedKeyLength (NodePbkdf2 (Some (o'\<lparr> opt_derivedKeyLength := Some (Num 0) \<rparr>))) = 30 \<and>
   self_derivedKeyLength (NodePbkdf2 (Some (o'\<lparr> opt_derivedKeyLength := Some NaN \<rparr>))) = 30 \<and>
   self_digest (NodePbkdf2 (Some (o'\<lparr> opt_digest := None \<rparr>))) = ''sha512'' \<and>
   self_digest (NodePbkdf2 (Some (o'\<lparr> opt_digest := Some '''' \<rparr>))) = ''sha512''"
  using NodePbkdf2_nonzero [of opts]
  by (simp add: NodePbkdf2_def no_options_def)

text \<open>
  An instance: \<open>iterations: 0\<close> and \<open>digest: ""\<close> are replaced, \<open>saltLength: 24\<close>
  is kept, the absent \<open>derivedKeyLength\<close> is defaulted.
\<close>

theorem NodePbkdf2_falsy_defaults_witness:
  "NodePbkdf2 (Some \<lparr> opt_iterations = Some (Num 0), opt_saltLength = Some (Num 24),
                       opt_derivedKeyLength = None, opt_digest = Some '''' \<rparr>)
     = \<lparr> self_iterations = 10000, self_saltLength = 24, self_derivedKeyLength = 30,
         self_digest = ''sha512'' \<rparr> \<and>
   self_iterations (NodePbkdf2 (Some \<lparr> opt_iterations = Some (Num 0), opt_saltLength = Some (Num 24),
                       opt_derivedKeyLength = None, opt_digest = Some '''' \<rparr>)) \<noteq> 0"
  using NodePbkdf2_falsy_defaults [of "Some \<lparr> opt_iterations = Some (Num 0), opt_saltLength = Some (Num 24),
                       opt_derivedKeyLength = None, opt_digest = Some '''' \<rparr>"]
  by (simp add: NodePbkdf2_def)

section \<open>Random tokens\<close>

text \<open>
  Claim C7, as stated, fails: \<open>2 ^ 31\<close> is a positive integer, and \<open>uid(2 ^ 31)\<close>
  returns no string, because \<open>crypto.randomBytes\<close> throws a \<open>RangeError\<close> for a
  size above \<open>2 ^ 31 - 1\<close>.
\<close>

theorem uid_beyond_bound_counterexample:
  "(0 :: int) < 2147483648 \<and> uid (entropy_of []) 2147483648 = Inl (RangeError ''size'')"
  by (simp add: uid_def randomBytes_def)

text \<open>
  Claim C7, amended. For every positive integer \<open>L\<close> up to \<open>2 ^ 31 - 1\<close>,
  \<open>uid(L)\<close> returns, and returns a string of exactly \<open>L\<close> characters, whatever
  bytes the random source delivers.
\<close>

theorem uid_length_exact:
  "0 < L \<Longrightarrow> L < 2 ^ 31 \<Longrightarrow> \<exists>s. uid ent L = Inr s \<and> int (length s) = L"
  using uid_Inr [of L ent] by (simp add: length_base64)

theorem uid_length_exact_witness:
  "(0 :: int) < 5 \<and> (5 :: int) < 2 ^ 31 \<and>
   (\<exists>s. uid (entropy_of [1, 2, 3, 4, 5]) 5 = Inr s \<and> int (length s) = 5)"
  using uid_length_exact [of 5 "entropy_of [1, 2, 3, 4, 5]"] by simp

text \<open>
  Claim C9, as stated, fails: when the random source delivers the byte \<open>0xFB\<close>,
  \<open>uid(1)\<close> is \<open>+\<close>, which a URL does not carry unescaped.
\<close>

theorem uid_not_url_safe_counterexample:
  "uid (entropy_of [251]) 1 = Inr ''+'' \<and> \<not> url_safe CHR ''+''"
  by code_simp

text \<open>
  Claim C9, amended. Every character of the string \<open>uid\<close> returns belongs to the
  standard base64 alphabet \<open>A-Z a-z 0-9 + /\<close> (the padding \<open>=\<close> never survives the
  truncation); it is URL-safe unless it is \<open>+\<close> or \<open>/\<close>.
\<close>

theorem uid_base64_alphabet:
  "uid ent L = Inr s \<Longrightarrow> c \<in> set s \<Longrightarrow>
     c \<in> set base64_alphabet \<and> (url_safe c \<or> c = CHR ''+'' \<or> c = CHR ''/'')"
  using uid_chars [of ent L s] base64_alphabet_url [of c] by blast

theorem uid_base64_alphabet_witness:
  "uid (entropy_of [251]) 1 = Inr ''+'' \<and> CHR ''+'' \<in> set ''+'' \<and>
   CHR ''+'' \<in> set base64_alphabet \<and>
   (url_safe CHR ''+'' \<or> CHR ''+'' = CHR ''+'' \<or> CHR ''+'' = CHR ''/'')"
proof -
  have u: "uid (entropy_of [251]) 1 = Inr ''+''"
    by code_simp
  have m: "CHR ''+'' \<in> set ''+''" by simp
  from uid_base64_alphabet [OF u m] u m show ?thesis by simp
qed


lemma parseInt_no_digit:
  assumes "\<forall>c\<in>set x. \<not> is_digit c"
  shows "parseInt (Some x) = NaN"
proof -
  let ?s = "dropWhile is_whitespace x"
  let ?s' = "case ?s of c # r \<Rightarrow> if c = CHR ''-'' \<or> c = CHR ''+'' then r else ?s | [] \<Rightarrow> ?s"
  have "set ?s \<subseteq> set x" by (rule set_dropWhileD [THEN subsetI])
  moreover have "set ?s' \<subseteq> set ?s" by (auto split: list.splits)
  ultimately have "\<forall>c\<in>set ?s'. \<not> is_digit c" using assms by blast
  then have "takeWhile is_digit ?s' = []"
    by (cases ?s') (simp_all del: dropWhile_eq_Nil_conv)
  then show ?thesis by (simp add: parseInt_def Let_def)
qed


section \<open>The codec\<close>

text \<open>
  Claim C3, as stated, fails: the salt \<open>a:\<close> and the derived key \<open>b\<close> hold no
  separator, yet the serialized text is \<open>a:::b::1::1\<close>, whose leftmost \<open>::\<close> ends
  the salt one character early.
\<close>

theorem roundtrip_counterexample:
  "\<not> has_sep ''a:'' \<and> \<not> has_sep ''b'' \<and>
   deserializeEncryptedPassword (serializeEncryptedPassword
     \<lparr> salt = Some ''a:'', derivedKey = Some ''b'', derivedKeyLength = Num 1, iterations = Num 1 \<rparr>)
   = \<lparr> salt = Some ''a'', derivedKey = Some '':b'', derivedKeyLength = Num 1, iterations = Num 1 \<rparr> \<and>
   deserializeEncryptedPassword (serializeEncryptedPassword
     \<lparr> salt = Some ''a:'', derivedKey = Some ''b'', derivedKeyLength = Num 1, iterations = Num 1 \<rparr>)
   \<noteq> \<lparr> salt = Some ''a:'', derivedKey = Some ''b'', derivedKeyLength = Num 1, iterations = Num 1 \<rparr>"
  by code_simp

text \<open>
  Claim C3, amended. For every record whose salt and derived key are strings that neither
  contain the separator \<open>::\<close> nor end in \<open>:\<close>, and whose derived-key length and
  iteration count are positive safe integers (at most \<open>2 ^ 53 - 1\<close>),
  deserializing the serialized record gives the record back, field for field.
\<close>

theorem deserialize_serialize_roundtrip:
  assumes "\<not> has_sep s" and "\<not> ends_with_colon s"
    and "\<not> has_sep d" and "\<not> ends_with_colon d"
    and "0 < k" and "k < 2 ^ 53" and "0 < i" and "i < 2 ^ 53"
  shows "deserializeEncryptedPassword (serializeEncryptedPassword
           \<lparr> salt = Some s, derivedKey = Some d, derivedKeyLength = Num k, iterations = Num i \<rparr>)
         = \<lparr> salt = Some s, derivedKey = Some d, derivedKeyLength = Num k, iterations = Num i \<rparr>"
  using assms(1-4) by (rule deserialize_serialize)

text \<open>The record of the repository's own test.\<close>

theorem deserialize_serialize_roundtrip_witness:
  "\<not> has_sep ''erwrw/+99'' \<and> \<not> ends_with_colon ''erwrw/+99'' \<and>
   \<not> has_sep ''qzeqzr++p//r'' \<and> \<not> ends_with_colon ''qzeqzr++p//r'' \<and>
   (0 :: int) < 12 \<and> (12 :: int) < 2 ^ 53 \<and> (0 :: int) < 1000 \<and> (1000 :: int) < 2 ^ 53 \<and>
   deserializeEncryptedPassword (serializeEncryptedPassword
     \<lparr> salt = Some ''erwrw/+99'', derivedKey = Some ''qzeqzr++p//r'',
       derivedKeyLength = Num 12, iterations = Num 1000 \<rparr>)
   = \<lparr> salt = Some ''erwrw/+99'', derivedKey = Some ''qzeqzr++p//r'',
       derivedKeyLength = Num 12, iterations = Num 1000 \<rparr>"
proof -
  have 1: "\<not> has_sep ''erwrw/+99''" and 2: "\<not> ends_with_colon ''erwrw/+99''"
    and 3: "\<not> has_sep ''qzeqzr++p//r''" and 4: "\<not> ends_with_colon ''qzeqzr++p//r''"
    by (simp_all add: ends_with_colon_def)
  have 5: "(0 :: int) < 12" and 6: "(12 :: int) < 2 ^ 53"
    and 7: "(0 :: int) < 1000" and 8: "(1000 :: int) < 2 ^ 53"
    by simp_all
  from deserialize_serialize_roundtrip [OF 1 2 3 4 5 6 7 8] 1 2 3 4 show ?thesis by simp
qed






lemma checkPassword_config_free:
  "checkPassword kdf (h\<lparr> self_iterations := i', self_saltLength := l', self_derivedKeyLength := k' \<rparr>) q r
     = checkPassword kdf h q r"
  "checkPasswordSync kdf (h\<lparr> self_iterations := i', self_saltLength := l', self_derivedKeyLength := k' \<rparr>) q r
     = checkPasswordSync kdf h q r"
  by (simp_all add: checkPassword_def checkPasswordSync_def Let_def
      cong: if_cong sum.case_cong)

lemma upt4: "[0..<4] = [0, 1, 2, 3 :: nat]"
  by code_simp

lemma wrong_format:
  assumes "\<not> right_format (deserializeEncryptedPassword r)"
  shows "checkPassword kdf h p r = Inl (Reason format_message)"
    and "checkPasswordSync kdf h p r = Inl (TypeError format_message)"
  using assms by (simp_all add: checkPassword_def checkPasswordSync_def)

section \<open>Checking a password\<close>

text \<open>
  Claim C2. Let the encoded record decode to a non-empty salt \<open>s\<close>, a non-empty
  derived key \<open>d\<close>, and non-zero Numbers \<open>k\<close> (derived-key length) and \<open>i\<close>
  (iterations). Then \<open>checkPassword\<close> and \<open>checkPasswordSync\<close> derive the key from
  the candidate password with \<open>s\<close>, \<open>i\<close>, \<open>k\<close> and the hasher's digest: an error
  of the derivation is passed on, and otherwise the result is \<open>true\<close> when the base64
  text of the fresh key equals \<open>d\<close> and \<open>false\<close> when it does not. The hasher's own
  iterations, salt length and derived-key length play no part.
\<close>

theorem check_uses_record_parameters:
  assumes "deserializeEncryptedPassword r =
             \<lparr> salt = Some s, derivedKey = Some d, derivedKeyLength = Num k, iterations = Num i \<rparr>"
    and "s \<noteq> []" and "d \<noteq> []" and "k \<noteq> 0" and "i \<noteq> 0"
  shows "checkPasswordSync kdf h q r =
           (case pbkdf2Sync kdf q s i k (self_digest h) of
              Inl err \<Rightarrow> Inl err | Inr key \<Rightarrow> Inr (base64 key = d)) \<and>
         checkPassword kdf h q r =
           (case pbkdf2 kdf q s i k (self_digest h) of
              Inl err \<Rightarrow> Inl err | Inr key \<Rightarrow> Inr (base64 key = d)) \<and>
         checkPasswordSync kdf
             (h\<lparr> self_iterations := i', self_saltLength := l', self_derivedKeyLength := k' \<rparr>) q r
           = checkPasswordSync kdf h q r \<and>
         checkPassword kdf
             (h\<lparr> self_iterations := i', self_saltLength := l', self_derivedKeyLength := k' \<rparr>) q r
           = checkPassword kdf h q r"
  using check_decoded [OF assms] checkPassword_config_free
  by (simp add: pbkdf2_def)

text \<open>
  An instance: a record made with 2 iterations and a 4-byte key, checked by the default
  hasher (10000 iterations, 30-byte key) against a password that does not match.
\<close>

theorem check_uses_record_parameters_witness:
  "deserializeEncryptedPassword ''AQI::CAkKCw==::4::2'' =
     \<lparr> salt = Some ''AQI'', derivedKey = Some ''CAkKCw=='', derivedKeyLength = Num 4,
       iterations = Num 2 \<rparr> \<and>
   checkPasswordSync sample_kdf (NodePbkdf2 None) ''abd!'' ''AQI::CAkKCw==::4::2'' = Inr False \<and>
   checkPassword sample_kdf (NodePbkdf2 None) ''abd!'' ''AQI::CAkKCw==::4::2'' = Inr False"
proof -
  have d: "deserializeEncryptedPassword ''AQI::CAkKCw==::4::2'' =
     \<lparr> salt = Some ''AQI'', derivedKey = Some ''CAkKCw=='', derivedKeyLength = Num 4,
       iterations = Num 2 \<rparr>"
    by code_simp
  have k: "pbkdf2Sync sample_kdf ''abd!'' ''AQI'' 2 4 (self_digest (NodePbkdf2 None))
             = Inr [9, 10, 11, 12]"
    by (simp add: pbkdf2Sync_def sample_kdf_def NodePbkdf2_def no_options_def upt4)
  have b: "base64 [9, 10, 11, 12 :: byte] \<noteq> ''CAkKCw==''"
    by code_simp
  have s: "''AQI'' \<noteq> []" "''CAkKCw=='' \<noteq> []" "(4 :: int) \<noteq> 0" "(2 :: int) \<noteq> 0"
    by simp_all
  from check_uses_record_parameters [OF d s, where kdf = sample_kdf and h = "NodePbkdf2 None"
      and q = "''abd!''"] k b
  have "checkPasswordSync sample_kdf (NodePbkdf2 None) ''abd!'' ''AQI::CAkKCw==::4::2'' = Inr False"
    and "checkPassword sample_kdf (NodePbkdf2 None) ''abd!'' ''AQI::CAkKCw==::4::2'' = Inr False"
    by (simp_all add: pbkdf2_def)
  with d show ?thesis by blast
qed

text \<open>
  Claim C5. When any field of the decoded record is missing, empty, zero or \<open>NaN\<close>,
  \<open>checkPassword\<close> is rejected with the format message and \<open>checkPasswordSync\<close>
  throws a \<open>TypeError\<close> with it. Neither outcome is the value \<open>false\<close>, and both
  are the same for every key-derivation function: none is consulted.
\<close>

theorem malformed_record_format_error:
  assumes "salt (deserializeEncryptedPassword r) = None \<or>
           salt (deserializeEncryptedPassword r) = Some [] \<or>
           derivedKey (deserializeEncryptedPassword r) = None \<or>
           derivedKey (deserializeEncryptedPassword r) = Some [] \<or>
           derivedKeyLength (deserializeEncryptedPassword r) = NaN \<or>
           derivedKeyLength (deserializeEncryptedPassword r) = Num 0 \<or>
           iterations (deserializeEncryptedPassword r) = NaN \<or>
           iterations (deserializeEncryptedPassword r) = Num 0"
  shows "checkPassword kdf h p r = Inl (Reason format_message) \<and>
         checkPasswordSync kdf h p r = Inl (TypeError format_message) \<and>
         checkPassword kdf h p r \<noteq> Inr False \<and>
         checkPasswordSync kdf h p r \<noteq> Inr False \<and>
         checkPassword kdf' h p r = checkPassword kdf h p r \<and>
         checkPasswordSync kdf' h p r = checkPasswordSync kdf h p r"
proof -
  from assms have "\<not> right_format (deserializeEncryptedPassword r)"
    by (auto simp add: right_format_def)
  then show ?thesis by (simp add: wrong_format)
qed

text \<open>An instance: a derived-key length of zero.\<close>

theorem malformed_record_format_error_witness:
  "derivedKeyLength (deserializeEncryptedPassword ''AQI::CAkKCw==::0::2'') = Num 0 \<and>
   checkPassword sample_kdf (NodePbkdf2 None) ''abc'' ''AQI::CAkKCw==::0::2''
     = Inl (Reason format_message) \<and>
   checkPasswordSync sample_kdf (NodePbkdf2 None) ''abc'' ''AQI::CAkKCw==::0::2''
     = Inl (TypeError format_message)"
proof -
  have z: "derivedKeyLength (deserializeEncryptedPassword ''AQI::CAkKCw==::0::2'') = Num 0"
    by code_simp
  then have "salt (deserializeEncryptedPassword ''AQI::CAkKCw==::0::2'') = None \<or>
           salt (deserializeEncryptedPassword ''AQI::CAkKCw==::0::2'') = Some [] \<or>
           derivedKey (deserializeEncryptedPassword ''AQI::CAkKCw==::0::2'') = None \<or>
           derivedKey (deserializeEncryptedPassword ''AQI::CAkKCw==::0::2'') = Some [] \<or>
           derivedKeyLength (deserializeEncryptedPassword ''AQI::CAkKCw==::0::2'') = NaN \<or>
           derivedKeyLength (deserializeEncryptedPassword ''AQI::CAkKCw==::0::2'') = Num 0 \<or>
           iterations (deserializeEncryptedPassword ''AQI::CAkKCw==::0::2'') = NaN \<or>
           iterations (deserializeEncryptedPassword ''AQI::CAkKCw==::0::2'') = Num 0"
    by blast
  from malformed_record_format_error [OF this, of sample_kdf "NodePbkdf2 None" "''abc''"] z
  show ?thesis by blast
qed

section \<open>Records the module creates\<close>

text \<open>
  Claim C6. When \<open>encryptPassword\<close> or \<open>encryptPasswordSync\<close> produces a record,
  neither its salt nor its base64 derived key contains a \<open>:\<close>, hence no separator,
  and deserializing the record gives back exactly the four fields that were serialized:
  the salt \<open>uid\<close> made, the base64 text of the derived key, and the hasher's
  derived-key length and iterations.
\<close>

theorem encrypted_record_fields:
  assumes "encryptPassword kdf ent h p = Inr r \<or> encryptPasswordSync kdf ent h p = Inr r"
  shows "\<exists>s key.
           uid ent (self_saltLength h) = Inr s \<and>
           pbkdf2Sync kdf p s (self_iterations h) (self_derivedKeyLength h) (self_digest h)
             = Inr key \<and>
           r = serializeEncryptedPassword
                 \<lparr> salt = Some s, derivedKey = Some (base64 key),
                   derivedKeyLength = Num (self_derivedKeyLength h),
                   iterations = Num (self_iterations h) \<rparr> \<and>
           CHR '':'' \<notin> set s \<and> CHR '':'' \<notin> set (base64 key) \<and>
           \<not> has_sep s \<and> \<not> has_sep (base64 key) \<and>
           deserializeEncryptedPassword r =
                 \<lparr> salt = Some s, derivedKey = Some (base64 key),
                   derivedKeyLength = Num (self_derivedKeyLength h),
                   iterations = Num (self_iterations h) \<rparr>"
proof -
  from assms have enc: "encryptPasswordSync kdf ent h p = Inr r"
    by (simp add: encryptPassword_eq)
  from encryptPasswordSync_Inr [OF enc] obtain s key where
    u: "uid ent (self_saltLength h) = Inr s" and
    k: "pbkdf2Sync kdf p s (self_iterations h) (self_derivedKeyLength h) (self_digest h) = Inr key" and
    r: "r = serializeEncryptedPassword
                 \<lparr> salt = Some s, derivedKey = Some (base64 key),
                   derivedKeyLength = Num (self_derivedKeyLength h),
                   iterations = Num (self_iterations h) \<rparr>"
    by blast
  have cs: "CHR '':'' \<notin> set s" using u by (rule uid_no_colon)
  have ck: "CHR '':'' \<notin> set (base64 key)" by (rule base64_no_colon)
  note hs = no_colon_no_sep [OF cs] and hk = no_colon_no_sep [OF ck]
  have d: "deserializeEncryptedPassword r =
                 \<lparr> salt = Some s, derivedKey = Some (base64 key),
                   derivedKeyLength = Num (self_derivedKeyLength h),
                   iterations = Num (self_iterations h) \<rparr>"
    unfolding r
    by (rule deserialize_serialize [OF hs no_colon_no_end [OF cs] hk no_colon_no_end [OF ck]])
  from u k r cs ck hs hk d show ?thesis by blast
qed

theorem encrypted_record_fields_witness:
  "encryptPasswordSync sample_kdf (entropy_of [1, 2, 3])
     (NodePbkdf2 (Some \<lparr> opt_iterations = Some (Num 2), opt_saltLength = Some (Num 3),
                       opt_derivedKeyLength = Some (Num 4), opt_digest = None \<rparr>)) ''abc''
     = Inr ''AQI::CAkKCw==::4::2'' \<and>
   (\<exists>s key. CHR '':'' \<notin> set s \<and> CHR '':'' \<notin> set (base64 key) \<and>
      deserializeEncryptedPassword ''AQI::CAkKCw==::4::2'' =
        \<lparr> salt = Some s, derivedKey = Some (base64 key), derivedKeyLength = Num 4,
          iterations = Num 2 \<rparr>)"
proof -
  let ?h = "NodePbkdf2 (Some \<lparr> opt_iterations = Some (Num 2), opt_saltLength = Some (Num 3),
                       opt_derivedKeyLength = Some (Num 4), opt_digest = None \<rparr>)"
  have e: "encryptPasswordSync sample_kdf (entropy_of [1, 2, 3]) ?h ''abc''
             = Inr ''AQI::CAkKCw==::4::2''"
    by code_simp
  have k: "self_derivedKeyLength ?h = 4" and i: "self_iterations ?h = 2"
    by (simp_all add: NodePbkdf2_def)
  from encrypted_record_fields [OF disjI2 [OF e]] e show ?thesis
    unfolding k i by blast
qed


section \<open>A record checked against passwords\<close>

text \<open>
  Claim C1. Let two hashers be constructed from any two configurations that give the same
  digest. Every record that one of them produces for a password \<open>p\<close>, through
  \<open>encryptPassword\<close> or \<open>encryptPasswordSync\<close> and with whatever salt the random
  source delivers, is accepted by the other: both of its checks return \<open>true\<close> for
  \<open>p\<close>. (The statement is symmetric in the two configurations.)
\<close>

theorem cross_configuration_check:
  assumes dg: "self_digest (NodePbkdf2 o2) = self_digest (NodePbkdf2 o1)"
    and enc: "encryptPassword kdf ent (NodePbkdf2 o1) p = Inr r \<or>
              encryptPasswordSync kdf ent (NodePbkdf2 o1) p = Inr r"
  shows "checkPassword kdf (NodePbkdf2 o2) p r = Inr True \<and>
         checkPasswordSync kdf (NodePbkdf2 o2) p r = Inr True"
proof -
  let ?h1 = "NodePbkdf2 o1" and ?h2 = "NodePbkdf2 o2"
  from enc have "encryptPasswordSync kdf ent ?h1 p = Inr r"
    by (simp add: encryptPassword_eq)
  from check_own_record [OF this] obtain s key where
    k: "pbkdf2Sync kdf p s (self_iterations ?h1) (self_derivedKeyLength ?h1) (self_digest ?h1)
          = Inr key" and
    cs: "\<And>h q. checkPasswordSync kdf h q r =
              (case pbkdf2Sync kdf q s (self_iterations ?h1) (self_derivedKeyLength ?h1)
                      (self_digest h) of
                 Inl err \<Rightarrow> Inl err | Inr key' \<Rightarrow> Inr (base64 key' = base64 key))" and
    ca: "\<And>h q. checkPassword kdf h q r =
              (case pbkdf2Sync kdf q s (self_iterations ?h1) (self_derivedKeyLength ?h1)
                      (self_digest h) of
                 Inl err \<Rightarrow> Inl err | Inr key' \<Rightarrow> Inr (base64 key' = base64 key))"
    by blast
  from k have "checkPasswordSync kdf ?h2 p r = Inr True"
    by (simp add: cs [of ?h2 p] dg)
  moreover from k have "checkPassword kdf ?h2 p r = Inr True"
    by (simp add: ca [of ?h2 p] dg)
  ultimately show ?thesis by simp
qed

text \<open>
  An instance, the shape of the repository's last test: a record made with 2 iterations,
  a 3-character salt and a 4-byte key is accepted by the default hasher (10000
  iterations, 12-character salts, 30-byte keys).
\<close>

theorem cross_configuration_check_witness:
  "self_digest (NodePbkdf2 None)
     = self_digest (NodePbkdf2 (Some \<lparr> opt_iterations = Some (Num 2), opt_saltLength = Some (Num 3),
                       opt_derivedKeyLength = Some (Num 4), opt_digest = None \<rparr>)) \<and>
   encryptPasswordSync sample_kdf (entropy_of [1, 2, 3])
     (NodePbkdf2 (Some \<lparr> opt_iterations = Some (Num 2), opt_saltLength = Some (Num 3),
                       opt_derivedKeyLength = Some (Num 4), opt_digest = None \<rparr>)) ''abc''
     = Inr ''AQI::CAkKCw==::4::2'' \<and>
   checkPassword sample_kdf (NodePbkdf2 None) ''abc'' ''AQI::CAkKCw==::4::2'' = Inr True \<and>
   checkPasswordSync sample_kdf (NodePbkdf2 None) ''abc'' ''AQI::CAkKCw==::4::2'' = Inr True"
proof -
  let ?o1 = "Some \<lparr> opt_iterations = Some (Num 2), opt_saltLength = Some (Num 3),
                       opt_derivedKeyLength = Some (Num 4), opt_digest = None \<rparr>"
  have dg: "self_digest (NodePbkdf2 None) = self_digest (NodePbkdf2 ?o1)"
    by (simp add: NodePbkdf2_def no_options_def)
  have e: "encryptPasswordSync sample_kdf (entropy_of [1, 2, 3]) (NodePbkdf2 ?o1) ''abc''
             = Inr ''AQI::CAkKCw==::4::2''"
    by code_simp
  from cross_configuration_check [OF dg disjI2 [OF e]] dg e show ?thesis by blast
qed




text \<open>
  The hypotheses above are met whenever the configuration is one \<open>crypto\<close> accepts:
  encryption then returns a record, the same through both entry points.
\<close>

lemma encryptPasswordSync_returns:
  assumes "0 \<le> self_saltLength h" and "self_saltLength h < 2 ^ 31"
    and "1 \<le> self_iterations h" and "self_iterations h < 2 ^ 31"
    and "0 \<le> self_derivedKeyLength h" and "self_derivedKeyLength h < 2 ^ 31"
    and "kdf (self_digest h) = Some f"
  shows "\<exists>r. encryptPasswordSync kdf ent h p = Inr r \<and> encryptPassword kdf ent h p = Inr r"
  using assms by (simp add: encryptPassword_eq encryptPasswordSync_def uid_Inr pbkdf2Sync_def)

end
